theory Spec2Isabelle
  imports Complex_Main
begin

section \<open>USB low-/full-speed signalling decoder (decoders/usb\_signalling/pd.py)\<close>

text \<open>
  A shallow embedding of the protocol decoder. The decoder object is a record, every
  method is a function from the record to a result of type \<open>error + decoder\<close>
  (\<open>Inl\<close> is a raised exception), and the two output streams are one list of
  events in emission order.

  Modelling conventions:
  \<^item> Python \<open>int\<close> is \<open>int\<close>; an attribute that \<open>__init__\<close> sets to
    \<open>None\<close> is an \<open>option\<close>, and arithmetic or an ordering comparison on
    \<open>None\<close> is \<open>TypeError\<close>.
  \<^item> Python \<open>float\<close> values (\<open>bitwidth\<close>, \<open>samplepos\<close>, the idle gap in
    seconds) are exact real numbers: the model leaves out the rounding error of binary
    floating point. Every concrete input evaluated below uses values a double holds
    exactly (multiples of 1/4), or compares numbers that are many orders of magnitude
    further apart than a double's precision.
  \<^item> the strings naming symbols, modes and states are datatypes; the bit characters
    \<open>'0'\<close> and \<open>'1'\<close> stay characters, the accumulated \<open>bits\<close> stay a string.
  \<^item> \<open>pins\<close> is the pair \<open>tuple(pins)\<close> of the two channel levels.
\<close>

subsection \<open>Data\<close>

datatype sym = J | K | SE0 | SE1 | FS_J | LS_J

datatype signalling = LowSpeed | FullSpeed | Automatic | LowSpeedRP

datatype dstate = INIT | IDLE | WAIT_IDLE | GET_BIT | GET_EOP

datatype error =
  SamplerateError | KeyError | TypeError | AttributeError | ZeroDivisionError | StopIteration

type_synonym pins = "int \<times> int"

text \<open>The OUTPUT\_PYTHON packets \<open>[ptype, pdata]\<close> and the annotations
  \<open>[class, [texts]]\<close>.\<close>

datatype pdata = SOP | SYM sym | BIT char | STUFF_BIT | EOP | ERR | KEEP_ALIVE | RESET

datatype out = OutPython pdata | OutAnn nat "string list"

text \<open>An event is the argument list of \<open>self.put(ss, es, stream, data)\<close>.\<close>

type_synonym event = "int option \<times> int option \<times> out"

record decoder =
  options_signalling :: signalling
  samplerate :: "int option"
  signalling :: "signalling option"
  oldsym :: sym
  ss_block :: "int option"
  samplenum :: int
  bitrate :: "int option"
  bitwidth :: "real option"
  samplepos :: "real option"
  samplenum_target :: "int option"
  samplenum_edge :: "int option"
  samplenum_lastedge :: "int option"
  oldpins :: "pins option"
  edgepins :: "pins option"
  consecutive_ones :: int
  bits :: "string option"
  state :: dstate
  lookahead_buffer :: "(int \<times> pins) list"
  events :: "event list"

subsection \<open>Tables\<close>

definition symbols :: "signalling \<Rightarrow> pins \<rightharpoonup> sym" where
  "symbols m =
     (case m of
        LowSpeed \<Rightarrow> map_of [((0, 0), SE0), ((1, 0), K), ((0, 1), J), ((1, 1), SE1)]
      | FullSpeed \<Rightarrow> map_of [((0, 0), SE0), ((1, 0), J), ((0, 1), K), ((1, 1), SE1)]
      | Automatic \<Rightarrow> map_of [((0, 0), SE0), ((1, 0), FS_J), ((0, 1), LS_J), ((1, 1), SE1)]
      | LowSpeedRP \<Rightarrow> map_of [((0, 0), SE0), ((1, 0), J), ((0, 1), K), ((1, 1), SE1)])"

definition bitrates :: "signalling \<Rightarrow> int option" where
  "bitrates m =
     (case m of
        LowSpeed \<Rightarrow> Some 1500000
      | LowSpeedRP \<Rightarrow> Some 1500000
      | FullSpeed \<Rightarrow> Some 12000000
      | Automatic \<Rightarrow> None)"

definition sym_annotation :: "sym \<rightharpoonup> nat \<times> string list" where
  "sym_annotation =
     map_of [(J, (0, [''J''])), (K, (1, [''K''])),
             (SE0, (2, [''SE0'', ''0''])), (SE1, (3, [''SE1'', ''1'']))]"

subsection \<open>Exceptions and Python primitives\<close>

fun bind_res :: "error + 'a \<Rightarrow> ('a \<Rightarrow> error + 'b) \<Rightarrow> error + 'b" where
  "bind_res (Inl e) f = Inl e"
| "bind_res (Inr x) f = f x"

text \<open>\<open>int(x)\<close> on a float truncates towards zero.\<close>

definition py_int :: "real \<Rightarrow> int" where
  "py_int x = (if 0 \<le> x then \<lfloor>x\<rfloor> else \<lceil>x\<rceil>)"

text \<open>\<open>symbols[mode][tuple(pins)]\<close>, where \<open>mode\<close> is \<open>self.signalling\<close> (an
  attribute that only \<open>metadata\<close> creates) or the configured option.\<close>

definition classify :: "signalling option \<Rightarrow> pins \<Rightarrow> error + sym" where
  "classify m p =
     (case m of
        None \<Rightarrow> Inl AttributeError
      | Some mode \<Rightarrow> (case symbols mode p of None \<Rightarrow> Inl KeyError | Some y \<Rightarrow> Inr y))"

definition put :: "int option \<Rightarrow> int option \<Rightarrow> out \<Rightarrow> decoder \<Rightarrow> decoder" where
  "put ss es d s = s\<lparr>events := events s @ [(ss, es, d)]\<rparr>"

subsection \<open>The decoder's methods\<close>

definition init :: "signalling \<Rightarrow> decoder" where
  "init opt =
     \<lparr>options_signalling = opt, samplerate = None, signalling = None, oldsym = J,
      ss_block = None, samplenum = 0, bitrate = None, bitwidth = None, samplepos = None,
      samplenum_target = None, samplenum_edge = None, samplenum_lastedge = Some 0,
      oldpins = None, edgepins = None, consecutive_ones = 0, bits = None, state = INIT,
      lookahead_buffer = [], events = []\<rparr>"

definition update_bitrate :: "decoder \<Rightarrow> error + decoder" where
  "update_bitrate s =
     (case signalling s of
        None \<Rightarrow> Inl AttributeError
      | Some m \<Rightarrow>
          (case samplerate s of
             None \<Rightarrow> Inl TypeError
           | Some r \<Rightarrow>
               (case bitrates m of
                  None \<Rightarrow> Inl TypeError
                | Some br \<Rightarrow>
                    if br = 0 then Inl ZeroDivisionError
                    else Inr (s\<lparr>bitrate := Some br,
                                bitwidth := Some (of_int r / of_int br)\<rparr>))))"

text \<open>\<open>metadata(SRD_CONF_SAMPLERATE, value)\<close>; other keys are ignored.\<close>

definition metadata :: "int \<Rightarrow> decoder \<Rightarrow> error + decoder" where
  "metadata v s =
     (let s1 = s\<lparr>samplerate := Some v, signalling := Some (options_signalling s)\<rparr>
      in if signalling s1 \<noteq> Some Automatic then update_bitrate s1 else Inr s1)"

text \<open>The six \<open>put\<close> helpers: \<open>putpx\<close>, \<open>putpm\<close>, \<open>putpb\<close> write a packet
  to the OUTPUT\_PYTHON stream, \<open>putx\<close>, \<open>putm\<close>, \<open>putb\<close> an annotation.\<close>

definition putpx :: "pdata \<Rightarrow> decoder \<Rightarrow> decoder" where
  "putpx d s = put (samplenum_edge s) (samplenum_edge s) (OutPython d) s"

definition putx :: "nat \<times> string list \<Rightarrow> decoder \<Rightarrow> decoder" where
  "putx a s = put (samplenum_edge s) (samplenum_edge s) (OutAnn (fst a) (snd a)) s"

definition putpm :: "pdata \<Rightarrow> decoder \<Rightarrow> decoder" where
  "putpm d s = put (ss_block s) (samplenum_edge s) (OutPython d) s"

definition putm :: "nat \<times> string list \<Rightarrow> decoder \<Rightarrow> decoder" where
  "putm a s = put (ss_block s) (samplenum_edge s) (OutAnn (fst a) (snd a)) s"

definition putpb :: "pdata \<Rightarrow> decoder \<Rightarrow> decoder" where
  "putpb d s = put (samplenum_lastedge s) (samplenum_edge s) (OutPython d) s"

definition putb :: "nat \<times> string list \<Rightarrow> decoder \<Rightarrow> decoder" where
  "putb a s = put (samplenum_lastedge s) (samplenum_edge s) (OutAnn (fst a) (snd a)) s"

definition set_new_target_samplenum :: "decoder \<Rightarrow> error + decoder" where
  "set_new_target_samplenum s =
     (case (samplepos s, bitwidth s) of
        (Some p, Some bw) \<Rightarrow>
          Inr (s\<lparr>samplepos := Some (p + bw),
                 samplenum_target := Some (py_int (p + bw)),
                 samplenum_lastedge := samplenum_edge s,
                 samplenum_edge := Some (py_int (p + bw - bw / 2))\<rparr>)
      | _ \<Rightarrow> Inl TypeError)"

text \<open>The loop of \<open>samplepos_quality\<close> over the lookahead buffer; \<open>pos\<close> is the
  local \<open>samplepos\<close>.\<close>

fun quality_walk :: "signalling option \<Rightarrow> real \<Rightarrow> (int \<times> pins) list \<Rightarrow> real \<Rightarrow> error + real" where
  "quality_walk m bw [] pos = Inr pos"
| "quality_walk m bw ((sn, p) # buf) pos =
     (if sn < py_int pos then quality_walk m bw buf pos
      else bind_res (classify m p) (\<lambda>y.
        if y \<noteq> J \<and> y \<noteq> K then Inr pos else quality_walk m bw buf (pos + bw)))"

definition samplepos_quality :: "decoder \<Rightarrow> real \<Rightarrow> error + real" where
  "samplepos_quality s pos =
     (case bitwidth s of
        None \<Rightarrow> Inl TypeError
      | Some bw \<Rightarrow> quality_walk (signalling s) bw (lookahead_buffer s) (pos + bw * 2))"

text \<open>The start position \<open>wait_for_sop\<close> settles on before it advances to the first
  bit: the nominal position, moved back half a sample when the last edge sample was not
  a J, and moved on one sample when the quality of the position one sample later is
  greater.\<close>

definition sop_samplepos :: "decoder \<Rightarrow> error + real" where
  "sop_samplepos s =
     (case bitwidth s of
        None \<Rightarrow> Inl TypeError
      | Some bw \<Rightarrow>
          let p0 = of_int (samplenum s) - 1 / 2 - bw / 2 in
          bind_res
            (case edgepins s of
               None \<Rightarrow> Inr p0
             | Some ep \<Rightarrow>
                 bind_res (classify (signalling s) ep)
                   (\<lambda>e. Inr (if e \<noteq> J then p0 - 1 / 2 else p0)))
            (\<lambda>p1. bind_res (samplepos_quality s p1)
              (\<lambda>q0. bind_res (samplepos_quality s (p1 + 1))
                (\<lambda>q1. Inr (if q0 < q1 then p1 + 1 else p1)))))"

definition wait_for_sop :: "decoder \<Rightarrow> sym \<Rightarrow> error + decoder" where
  "wait_for_sop s y =
     (if y \<noteq> K \<or> oldsym s \<noteq> J then Inr s
      else bind_res (sop_samplepos s) (\<lambda>p.
        bind_res (update_bitrate
                   (s\<lparr>samplepos := Some p, consecutive_ones := 0, bits := Some []\<rparr>))
          (\<lambda>s1. bind_res (set_new_target_samplenum s1)
            (\<lambda>s2. Inr ((putx (4, [''SOP'', ''S'']) (putpx SOP s2))\<lparr>state := GET_BIT\<rparr>)))))"

definition handle_bit :: "decoder \<Rightarrow> char \<Rightarrow> decoder" where
  "handle_bit s b =
     (if consecutive_ones s = 6 then
        (if b = CHR ''0'' then
           (putb (7, [''Stuff bit: 0'', ''SB: 0'', ''0'']) (putpb STUFF_BIT s))
             \<lparr>consecutive_ones := 0\<rparr>
         else
           (putb (8, [''Bit stuff error'', ''BS ERR'', ''B'']) (putpb ERR s))
             \<lparr>state := IDLE\<rparr>)
      else
        (let s1 = putb (6, [[b]]) (putpb (BIT b) s)
         in if b = CHR ''1'' then s1\<lparr>consecutive_ones := consecutive_ones s1 + 1\<rparr>
            else s1\<lparr>consecutive_ones := 0\<rparr>))"

text \<open>\<open>putpb(['SYM', sym])\<close> followed by \<open>putb(sym_annotation[sym])\<close>.\<close>

definition put_sym :: "sym \<Rightarrow> decoder \<Rightarrow> error + decoder" where
  "put_sym y s =
     (case sym_annotation y of
        None \<Rightarrow> Inl KeyError
      | Some a \<Rightarrow> Inr (putb a (putpb (SYM y) s)))"

definition get_eop :: "decoder \<Rightarrow> sym \<Rightarrow> error + decoder" where
  "get_eop s y =
     bind_res (set_new_target_samplenum s) (\<lambda>s1.
       bind_res (put_sym y s1) (\<lambda>s2.
         let s3 = s2\<lparr>oldsym := y\<rparr> in
         if y = SE0 then Inr s3
         else if y = J then
           Inr ((putm (5, [''EOP'', ''E'']) (putpm EOP s3))\<lparr>state := WAIT_IDLE\<rparr>)
         else
           Inr ((putm (8, [''EOP Error'', ''EErr'', ''E'']) (putpm ERR s3))\<lparr>state := IDLE\<rparr>)))"

definition preamble :: string where
  "preamble = ''0000000100111100''"

text \<open>The tail of \<open>get_bit\<close>: the raw bit is appended to \<open>self.bits\<close> while
  that holds at most 16 bits, and when the 16 bits are the sync pattern followed by the
  PREamble PID the decoder switches to low-speed signalling with full-speed polarity.\<close>

definition track_preamble :: "decoder \<Rightarrow> char \<Rightarrow> error + decoder" where
  "track_preamble s b =
     (case bits s of
        None \<Rightarrow> Inl TypeError
      | Some bs \<Rightarrow>
          let bs1 = (if length bs \<le> 16 then bs @ [b] else bs);
              s1 = s\<lparr>bits := Some bs1\<rparr>
          in if length bs1 = 16 \<and> bs1 = preamble then
               bind_res
                 (update_bitrate
                    ((putpx EOP s1)\<lparr>state := IDLE, signalling := Some LowSpeedRP\<rparr>))
                 (\<lambda>s2. Inr (s2\<lparr>oldsym := J\<rparr>))
             else Inr s1)"

definition get_bit :: "decoder \<Rightarrow> sym \<Rightarrow> error + decoder" where
  "get_bit s y =
     bind_res (set_new_target_samplenum s) (\<lambda>s1.
       let b = (if oldsym s1 \<noteq> y then CHR ''0'' else CHR ''1'');
           s2 = s1\<lparr>oldsym := y\<rparr>;
           s3 = (if y = SE0 then s2\<lparr>state := GET_EOP, ss_block := samplenum_lastedge s2\<rparr>
                 else handle_bit s2 b)
       in bind_res (put_sym y s3) (\<lambda>s4. track_preamble s4 b))"

text \<open>The first half of \<open>handle_idle\<close>: the gap since the last edge in seconds and
  the Reset / Keep-Alive classification (the thresholds are the literals \<open>2.5e-6\<close>
  and \<open>1.2e-6\<close>).\<close>

definition idle_gap :: "decoder \<Rightarrow> error + decoder" where
  "idle_gap s =
     (let s1 = s\<lparr>samplenum_edge := Some (samplenum s)\<rparr> in
      case (samplenum_lastedge s1, samplerate s1) of
        (Some le, Some r) \<Rightarrow>
          if r = 0 then Inl ZeroDivisionError
          else
            let se0_length = (of_int (samplenum s1 - le) :: real) / of_int r in
            if se0_length > 25 / 10000000 then
              Inr ((putb (10, [''Reset'', ''Res'', ''R'']) (putpb RESET s1))
                     \<lparr>signalling := Some (options_signalling s1)\<rparr>)
            else if se0_length > 12 / 10000000 then
              (case signalling s1 of
                 None \<Rightarrow> Inl AttributeError
               | Some m \<Rightarrow>
                   if m = LowSpeed then
                     Inr (putb (9, [''Keep-alive'', ''KA'', ''A'']) (putpb KEEP_ALIVE s1))
                   else Inr s1)
            else Inr s1
      | _ \<Rightarrow> Inl TypeError)"

text \<open>The second half of \<open>handle_idle\<close>: the speed detection on \<open>FS_J\<close> and
  \<open>LS_J\<close>.\<close>

definition idle_speed :: "decoder \<Rightarrow> sym \<Rightarrow> error + decoder" where
  "idle_speed s y =
     bind_res
       (if y = FS_J then update_bitrate (s\<lparr>signalling := Some FullSpeed\<rparr>)
        else if y = LS_J then update_bitrate (s\<lparr>signalling := Some LowSpeed\<rparr>)
        else Inr s)
       (\<lambda>s1. Inr (s1\<lparr>oldsym := J, state := IDLE\<rparr>))"

definition handle_idle :: "decoder \<Rightarrow> sym \<Rightarrow> error + decoder" where
  "handle_idle s y = bind_res (idle_gap s) (\<lambda>s1. idle_speed s1 y)"

text \<open>The body of the loop of \<open>decode\<close> after \<open>popleft\<close>: the state machine on one
  sample. \<open>self.samplenum\<close> and the lookahead buffer are already updated in \<open>s\<close>;
  a \<open>continue\<close> returns the state.\<close>

definition process_sample :: "decoder \<Rightarrow> pins \<Rightarrow> error + decoder" where
  "process_sample s p =
     (case state s of
        IDLE \<Rightarrow>
          if oldpins s = Some p then Inr s
          else
            (let s1 = s\<lparr>oldpins := Some p\<rparr> in
             bind_res (classify (signalling s1) p) (\<lambda>y.
               bind_res
                 (if y = SE0 then
                    Inr (s1\<lparr>samplenum_lastedge := Some (samplenum s1), state := WAIT_IDLE\<rparr>)
                  else wait_for_sop s1 y)
                 (\<lambda>s2. Inr (s2\<lparr>edgepins := Some p\<rparr>))))
      | GET_BIT \<Rightarrow>
          (let s1 = (if Some (samplenum s) = samplenum_edge s then s\<lparr>edgepins := Some p\<rparr>
                     else s) in
           case samplenum_target s1 of
             None \<Rightarrow> Inl TypeError
           | Some t \<Rightarrow>
               if samplenum s1 < t then Inr s1
               else bind_res (classify (signalling s1) p) (\<lambda>y.
                 bind_res (get_bit s1 y) (\<lambda>s2. Inr (s2\<lparr>oldpins := Some p\<rparr>))))
      | GET_EOP \<Rightarrow>
          (let s1 = (if Some (samplenum s) = samplenum_edge s then s\<lparr>edgepins := Some p\<rparr>
                     else s) in
           case samplenum_target s1 of
             None \<Rightarrow> Inl TypeError
           | Some t \<Rightarrow>
               if samplenum s1 < t then Inr s1
               else bind_res (classify (signalling s1) p) (\<lambda>y.
                 bind_res (get_eop s1 y) (\<lambda>s2. Inr (s2\<lparr>oldpins := Some p\<rparr>))))
      | WAIT_IDLE \<Rightarrow>
          if p = (0, 0) then Inr s
          else
            (case samplenum_lastedge s of
               None \<Rightarrow> Inl TypeError
             | Some le \<Rightarrow>
                 bind_res
                   (if samplenum s - le > 1 then
                      bind_res (classify (Some (options_signalling s)) p) (handle_idle s)
                    else bind_res (classify (signalling s) p) (wait_for_sop s))
                   (\<lambda>s2. Inr (s2\<lparr>oldpins := Some p, edgepins := Some p\<rparr>)))
      | INIT \<Rightarrow>
          bind_res (classify (Some (options_signalling s)) p) (\<lambda>y.
            bind_res (handle_idle s y) (\<lambda>s2. Inr (s2\<lparr>oldpins := Some p\<rparr>))))"

text \<open>The \<open>while\<close> loop of \<open>decode\<close>. \<open>buf\<close> is the deque before the iteration,
  \<open>data\<close> what the iterator still holds: one sample is appended if there is one
  (\<open>take 1 data\<close>), the leftmost is popped and processed.\<close>

function decode_loop ::
  "decoder \<Rightarrow> (int \<times> pins) list \<Rightarrow> (int \<times> pins) list \<Rightarrow> error + decoder" where
  "decode_loop s [] data = Inr s"
| "decode_loop s ((sn, p) # buf) data =
     (case process_sample
             (s\<lparr>lookahead_buffer := buf @ take 1 data, samplenum := sn\<rparr>) p of
        Inl e \<Rightarrow> Inl e
      | Inr s2 \<Rightarrow> decode_loop s2 (buf @ take 1 data) (drop 1 data))"
  by pat_completeness auto
termination
  by (relation "measure (\<lambda>(s, buf, data). length buf + length data)") auto

definition decode :: "decoder \<Rightarrow> (int \<times> pins) list \<Rightarrow> error + decoder" where
  "decode s data =
     (if samplerate s = None \<or> samplerate s = Some 0 then Inl SamplerateError
      else
        (case data of
           [] \<Rightarrow> Inl StopIteration
         | d # rest \<Rightarrow> decode_loop s (replicate 192 d) rest))"

text \<open>The host's calling sequence for one run: construct the decoder with the chosen
  option, supply the sampling rate through \<open>metadata\<close>, call \<open>decode\<close>.\<close>

definition run_decode :: "signalling \<Rightarrow> int \<Rightarrow> (int \<times> pins) list \<Rightarrow> error + decoder" where
  "run_decode opt rate data = bind_res (metadata rate (init opt)) (\<lambda>s. decode s data)"

subsection \<open>Auxiliary definitions for the statements\<close>

text \<open>A capture as the host delivers it: the pin pairs numbered from a first sample
  number.\<close>

fun number_from :: "int \<Rightarrow> pins list \<Rightarrow> (int \<times> pins) list" where
  "number_from n [] = []"
| "number_from n (p # ps) = (n, p) # number_from (n + 1) ps"




text \<open>The decoder at 48 MHz in full-speed mode (4 samples per bit) when sample 20, the
  first K after idle, reaches \<open>wait_for_sop\<close>: the last edge sample was a J, and the
  lookahead buffer holds three more samples of K, four of J and eight of SE0.\<close>

definition sop_state :: decoder where
  "sop_state =
     (init FullSpeed)\<lparr>samplerate := Some 48000000, signalling := Some FullSpeed,
       bitrate := Some 12000000, bitwidth := Some 4, samplenum := 20,
       samplenum_edge := Some 0, oldpins := Some (0, 1), edgepins := Some (1, 0),
       state := IDLE,
       lookahead_buffer :=
         number_from 21 (replicate 3 (0, 1) @ replicate 4 (1, 0) @ replicate 8 (0, 0))\<rparr>"

text \<open>The events a call added: those of \<open>s'\<close> after the ones \<open>s\<close> already had.\<close>

definition new_events :: "decoder \<Rightarrow> decoder \<Rightarrow> event list" where
  "new_events s s' = drop (length (events s)) (events s')"

text \<open>The OUTPUT\_PYTHON packets of one kind among some events, and their number.\<close>

definition py_events :: "pdata \<Rightarrow> event list \<Rightarrow> event list" where
  "py_events d evs = filter (\<lambda>e. snd (snd e) = OutPython d) evs"

definition count_py :: "pdata \<Rightarrow> event list \<Rightarrow> nat" where
  "count_py d evs = length (py_events d evs)"

text \<open>The \<open>BIT\<close> packets, whatever bit they carry.\<close>

fun is_bit :: "event \<Rightarrow> bool" where
  "is_bit (ss, es, OutPython (BIT b)) = True"
| "is_bit e = False"

definition count_bit :: "event list \<Rightarrow> nat" where
  "count_bit evs = length (filter is_bit evs)"

text \<open>The decoder at 48 MHz in full-speed mode inside a packet, about to sample the bit
  whose middle is at position 26.5, with the given stuffing counter, last symbol and
  accumulated bits.\<close>

definition packet_state :: "int \<Rightarrow> sym \<Rightarrow> string \<Rightarrow> decoder" where
  "packet_state c y bs =
     (init FullSpeed)\<lparr>samplerate := Some 48000000, signalling := Some FullSpeed,
       bitrate := Some 12000000, bitwidth := Some 4,
       samplepos := Some (53 / 2), samplenum_target := Some 26, samplenum_edge := Some 24,
       samplenum_lastedge := Some 20, samplenum := 26,
       oldpins := Some (0, 1), edgepins := Some (0, 1),
       oldsym := y, consecutive_ones := c, bits := Some bs, state := GET_BIT\<rparr>"



text \<open>The decoder at 10 MHz in WAIT\_IDLE, with the configured option \<open>opt\<close> and the
  current mode \<open>m\<close>, at the sample \<open>n\<close> samples (\<open>n\<close> tenths of a microsecond)
  after the last edge at sample 100.\<close>

definition idle_state :: "signalling \<Rightarrow> signalling \<Rightarrow> int \<Rightarrow> decoder" where
  "idle_state opt m n =
     (init opt)\<lparr>samplerate := Some 10000000, signalling := Some m,
       bitrate := bitrates m, bitwidth := map_option (\<lambda>br. 10000000 / of_int br) (bitrates m),
       samplenum := 100 + n, samplenum_lastedge := Some 100, samplenum_edge := Some 100,
       oldpins := Some (0, 0), edgepins := Some (0, 0), state := WAIT_IDLE\<rparr>"

text \<open>A full-speed capture at 24 MHz (2 samples per bit): four samples of idle J, then
  the sixteen symbols K J K J K J K K, J K K K K K J K, which are the NRZI encoding of the
  bits \<open>0000000100111100\<close> (the sync pattern and the PREamble PID).\<close>

definition trace_preamble :: "(int \<times> pins) list" where
  "trace_preamble = number_from 0
     (replicate 4 (1, 0) @
      concat (map (replicate 2)
        [(0, 1), (1, 0), (0, 1), (1, 0), (0, 1), (1, 0), (0, 1), (0, 1),
         (1, 0), (0, 1), (0, 1), (0, 1), (0, 1), (0, 1), (1, 0), (0, 1)]))"

section \<open>Basic facts\<close>

lemma bind_res_Inr_iff: "bind_res m f = Inr y \<longleftrightarrow> (\<exists>x. m = Inr x \<and> f x = Inr y)"
  by (cases m) auto

lemma bind_res_Inl_iff:
  "bind_res m f = Inl e \<longleftrightarrow> m = Inl e \<or> (\<exists>x. m = Inr x \<and> f x = Inl e)"
  by (cases m) auto

subsection \<open>No method but \<open>decode\<close> raises \<open>SamplerateError\<close>\<close>

lemma classify_not_sre: "classify m p \<noteq> Inl SamplerateError"
  by (simp add: classify_def split: option.splits)

lemma update_bitrate_not_sre: "update_bitrate s \<noteq> Inl SamplerateError"
  by (simp add: update_bitrate_def split: option.splits)

lemma set_new_target_not_sre: "set_new_target_samplenum s \<noteq> Inl SamplerateError"
  by (simp add: set_new_target_samplenum_def split: option.splits)

lemma quality_walk_not_sre: "quality_walk m bw buf pos \<noteq> Inl SamplerateError"
  by (induction m bw buf pos rule: quality_walk.induct)
     (auto simp: bind_res_Inl_iff classify_not_sre)

lemma samplepos_quality_not_sre: "samplepos_quality s pos \<noteq> Inl SamplerateError"
  by (simp add: samplepos_quality_def quality_walk_not_sre split: option.splits)

lemma sop_samplepos_not_sre: "sop_samplepos s \<noteq> Inl SamplerateError"
  by (auto simp: sop_samplepos_def Let_def bind_res_Inl_iff classify_not_sre
        samplepos_quality_not_sre split: option.splits)

lemma wait_for_sop_not_sre: "wait_for_sop s y \<noteq> Inl SamplerateError"
  by (auto simp: wait_for_sop_def bind_res_Inl_iff sop_samplepos_not_sre
        update_bitrate_not_sre set_new_target_not_sre)

lemma put_sym_not_sre: "put_sym y s \<noteq> Inl SamplerateError"
  by (simp add: put_sym_def split: option.splits)

lemma get_eop_not_sre: "get_eop s y \<noteq> Inl SamplerateError"
  by (auto simp: get_eop_def Let_def bind_res_Inl_iff set_new_target_not_sre put_sym_not_sre)

lemma track_preamble_not_sre: "track_preamble s b \<noteq> Inl SamplerateError"
  by (auto simp: track_preamble_def Let_def bind_res_Inl_iff update_bitrate_not_sre
        split: option.splits)

lemma get_bit_not_sre: "get_bit s y \<noteq> Inl SamplerateError"
  by (auto simp: get_bit_def Let_def bind_res_Inl_iff set_new_target_not_sre put_sym_not_sre
        track_preamble_not_sre)

lemma idle_gap_not_sre: "idle_gap s \<noteq> Inl SamplerateError"
  by (auto simp: idle_gap_def Let_def split: option.splits)

lemma idle_speed_not_sre: "idle_speed s y \<noteq> Inl SamplerateError"
  by (auto simp: idle_speed_def bind_res_Inl_iff update_bitrate_not_sre)

lemma handle_idle_not_sre: "handle_idle s y \<noteq> Inl SamplerateError"
  by (auto simp: handle_idle_def bind_res_Inl_iff idle_gap_not_sre idle_speed_not_sre)

lemma process_sample_not_sre: "process_sample s p \<noteq> Inl SamplerateError"
  by (auto simp: process_sample_def Let_def bind_res_Inl_iff classify_not_sre
        wait_for_sop_not_sre get_eop_not_sre get_bit_not_sre handle_idle_not_sre
        split: dstate.splits option.splits)

lemma decode_loop_not_sre: "decode_loop s buf data \<noteq> Inl SamplerateError"
  by (induction s buf data rule: decode_loop.induct)
     (auto simp: process_sample_not_sre split: sum.splits)

section \<open>The sampling-rate precondition of \<open>decode\<close>\<close>

text \<open>
  Claim C1, as amended. \<open>decode\<close> tests \<open>not self.samplerate\<close>, which holds for an
  absent rate and for the rate 0 alike. When the rate is absent or 0, \<open>decode\<close>
  raises \<open>SamplerateError\<close> whatever the input is, so before it reads a sample. When
  a rate other than 0 has been supplied, \<open>decode\<close> never raises
  \<open>SamplerateError\<close>, and on an input with a first sample \<open>d\<close> it enters the sample
  loop with the lookahead buffer filled with 192 copies of \<open>d\<close>.
\<close>

theorem decode_samplerate_guard:
  "(samplerate s = None \<or> samplerate s = Some 0 \<longrightarrow> decode s data = Inl SamplerateError) \<and>
   (samplerate s = Some r \<and> r \<noteq> 0 \<longrightarrow>
      decode s data \<noteq> Inl SamplerateError \<and>
      decode s (d # data) = decode_loop s (replicate 192 d) data)"
  by (auto simp: decode_def decode_loop_not_sre split: list.splits)

text \<open>Witness for C1: a decoder without a rate, one with the rate 0, and one with the
  rate 12 MHz.\<close>

theorem decode_samplerate_guard_witness:
  "decode (init Automatic) [(0, (1, 0))] = Inl SamplerateError \<and>
   decode ((init Automatic)\<lparr>samplerate := Some 0\<rparr>) [(0, (1, 0))] = Inl SamplerateError \<and>
   decode ((init Automatic)\<lparr>samplerate := Some 12000000\<rparr>) [] \<noteq> Inl SamplerateError \<and>
   decode ((init Automatic)\<lparr>samplerate := Some 12000000\<rparr>) [(0, (1, 0))] =
     decode_loop ((init Automatic)\<lparr>samplerate := Some 12000000\<rparr>)
       (replicate 192 (0, (1, 0))) []"
  using decode_samplerate_guard [of "init Automatic" "[(0, (1, 0))]" 0 "(0, (1, 0))"]
    decode_samplerate_guard
      [of "(init Automatic)\<lparr>samplerate := Some 0\<rparr>" "[(0, (1, 0))]" 0 "(0, (1, 0))"]
    decode_samplerate_guard
      [of "(init Automatic)\<lparr>samplerate := Some 12000000\<rparr>" "[]" 12000000 "(0, (1, 0))"]
  by (simp add: init_def)

text \<open>Counterexample to C1 as stated: the host supplies the sampling rate 0 through
  \<open>metadata\<close> (the rate is then set, to 0), and \<open>decode\<close> still raises
  \<open>SamplerateError\<close>.\<close>

theorem samplerate_zero_counterexample:
  "map_sum id samplerate (metadata 0 (init FullSpeed)) = Inr (Some 0) \<and>
   run_decode FullSpeed 0 [(0, (1, 0))] = Inl SamplerateError"
  by (simp add: run_decode_def metadata_def init_def update_bitrate_def bitrates_def decode_def)

section \<open>The symbol tables\<close>

text \<open>
  Claim C9. In each of the four tables (low-speed, full-speed, automatic, low-speed-rp)
  the keys are exactly the four pairs of levels (D+, D-) with both levels in {0, 1}: every
  such pair has a symbol, and a table being a map, it has one symbol only. No lookup of
  a pin pair with levels 0 or 1 can fail.
\<close>

theorem symbols_total: "dom (symbols m) = {0, 1} \<times> {0, 1}"
  by (cases m) (auto simp: symbols_def split: if_splits)

section \<open>The timing model\<close>






section \<open>Alignment at the start of a packet\<close>







section \<open>Bits and bit stuffing\<close>

lemmas put_defs = putpx_def putx_def putpm_def putm_def putpb_def putb_def put_def

lemma sym_annotation_simps:
  "sym_annotation J = Some (0, [''J''])" "sym_annotation K = Some (1, [''K''])"
  "sym_annotation SE0 = Some (2, [''SE0'', ''0''])" "sym_annotation SE1 = Some (3, [''SE1'', ''1''])"
  "sym_annotation FS_J = None" "sym_annotation LS_J = None"
  by (simp_all add: sym_annotation_def)

lemmas count_defs = new_events_def py_events_def count_py_def count_bit_def

lemma get_bit_stuffing:
  assumes "samplepos s = Some p" and "bitwidth s = Some bw" and "bits s = Some bs"
    and "samplerate s = Some r" and "y = J \<or> y = K \<or> y = SE1"
  shows "\<exists>s'. get_bit s y = Inr s' \<and>
    (let b = (if oldsym s \<noteq> y then CHR ''0'' else CHR ''1''); evs = new_events s s' in
     if consecutive_ones s = 6 then
       (if b = CHR ''0'' then
          count_py STUFF_BIT evs = 1 \<and> count_bit evs = 0 \<and> count_py ERR evs = 0 \<and>
          consecutive_ones s' = 0
        else
          count_py ERR evs = 1 \<and> count_bit evs = 0 \<and> count_py STUFF_BIT evs = 0 \<and>
          state s' = IDLE)
     else
       count_py (BIT b) evs = 1 \<and> count_bit evs = 1 \<and> count_py STUFF_BIT evs = 0 \<and>
       count_py ERR evs = 0 \<and>
       consecutive_ones s' = (if b = CHR ''1'' then consecutive_ones s + 1 else 0))"
  using assms
  by (auto simp: get_bit_def track_preamble_def set_new_target_samplenum_def handle_bit_def put_sym_def
        put_defs update_bitrate_def bitrates_def Let_def sym_annotation_simps count_defs)

lemma update_bitrate_Inr:
  assumes "update_bitrate s = Inr s'"
  shows "\<exists>m r br. signalling s = Some m \<and> samplerate s = Some r \<and> bitrates m = Some br \<and>
           s' = s\<lparr>bitrate := Some br, bitwidth := Some (of_int r / of_int br)\<rparr>"
  using assms by (auto simp: update_bitrate_def split: option.splits if_splits)

lemma set_new_target_Inr:
  assumes "set_new_target_samplenum s = Inr s'"
  shows "\<exists>p bw. samplepos s = Some p \<and> bitwidth s = Some bw \<and>
           s' = s\<lparr>samplepos := Some (p + bw), samplenum_target := Some (py_int (p + bw)),
                  samplenum_lastedge := samplenum_edge s,
                  samplenum_edge := Some (py_int (p + bw - bw / 2))\<rparr>"
  using assms by (auto simp: set_new_target_samplenum_def split: option.splits)

lemma wait_for_sop_Inr:
  assumes "wait_for_sop s K = Inr s'" and "oldsym s = J"
  shows "\<exists>p s1 s2. sop_samplepos s = Inr p \<and>
           update_bitrate (s\<lparr>samplepos := Some p, consecutive_ones := 0, bits := Some []\<rparr>) =
             Inr s1 \<and>
           set_new_target_samplenum s1 = Inr s2 \<and>
           s' = (putx (4, [''SOP'', ''S'']) (putpx SOP s2))\<lparr>state := GET_BIT\<rparr>"
  using assms by (auto simp: wait_for_sop_def bind_res_Inr_iff)

lemma wait_for_sop_resets:
  assumes "wait_for_sop s K = Inr s'" and "oldsym s = J"
  shows "consecutive_ones s' = 0 \<and> state s' = GET_BIT \<and> bits s' = Some []"
proof -
  obtain p s1 s2 where
    s1: "update_bitrate (s\<lparr>samplepos := Some p, consecutive_ones := 0, bits := Some []\<rparr>) =
           Inr s1"
    and s2: "set_new_target_samplenum s1 = Inr s2"
    and s': "s' = (putx (4, [''SOP'', ''S'']) (putpx SOP s2))\<lparr>state := GET_BIT\<rparr>"
    using wait_for_sop_Inr [OF assms] by blast
  from update_bitrate_Inr [OF s1] have "consecutive_ones s1 = 0 \<and> bits s1 = Some []"
    by auto
  with set_new_target_Inr [OF s2] have "consecutive_ones s2 = 0 \<and> bits s2 = Some []"
    by auto
  with s' show ?thesis by (simp add: put_defs)
qed

text \<open>
  Claim C4. For a bit sampled in GET\_BIT whose symbol is J, K or SE1 (not the SE0 that
  starts an EOP), with \<open>b\<close> the NRZI bit (\<open>'0'\<close> when the symbol changed,
  \<open>'1'\<close> when it did not), \<open>get_bit\<close> returns and
  \<^item> with the counter at 6 and \<open>b = '0'\<close>: emits exactly one STUFF BIT packet, no
    BIT and no ERR packet, and resets the counter to 0;
  \<^item> with the counter at 6 and \<open>b = '1'\<close>: emits exactly one ERR packet, no BIT and
    no STUFF BIT packet, and leaves the state IDLE;
  \<^item> otherwise: emits exactly one BIT packet, which carries \<open>b\<close>, and the counter
    is incremented for \<open>'1'\<close> and reset to 0 for \<open>'0'\<close>.
  And whenever \<open>wait_for_sop\<close> accepts a J-to-K change as a start of packet, the
  counter is 0 and the state GET\_BIT afterwards.
\<close>

theorem bit_stuffing:
  assumes "samplepos s = Some p" and "bitwidth s = Some bw" and "bits s = Some bs"
    and "samplerate s = Some r" and "y = J \<or> y = K \<or> y = SE1"
  shows "(\<exists>s'. get_bit s y = Inr s' \<and>
    (let b = (if oldsym s \<noteq> y then CHR ''0'' else CHR ''1''); evs = new_events s s' in
     if consecutive_ones s = 6 then
       (if b = CHR ''0'' then
          count_py STUFF_BIT evs = 1 \<and> count_bit evs = 0 \<and> count_py ERR evs = 0 \<and>
          consecutive_ones s' = 0
        else
          count_py ERR evs = 1 \<and> count_bit evs = 0 \<and> count_py STUFF_BIT evs = 0 \<and>
          state s' = IDLE)
     else
       count_py (BIT b) evs = 1 \<and> count_bit evs = 1 \<and> count_py STUFF_BIT evs = 0 \<and>
       count_py ERR evs = 0 \<and>
       consecutive_ones s' = (if b = CHR ''1'' then consecutive_ones s + 1 else 0))) \<and>
    (\<forall>t t'. oldsym t = J \<and> wait_for_sop t K = Inr t' \<longrightarrow>
       consecutive_ones t' = 0 \<and> state t' = GET_BIT)"
  using get_bit_stuffing [OF assms] wait_for_sop_resets by blast

text \<open>Witness for C4: a stuff bit and a stuffing error after six ones, a normal
  \<open>'1'\<close> and a normal \<open>'0'\<close> after two ones, and the start of packet of
  \<open>sop_state\<close> entered with the counter at 5.\<close>

theorem bit_stuffing_witness:
  "(\<exists>s'. get_bit (packet_state 6 K ''0111111'') J = Inr s' \<and>
      count_py STUFF_BIT (new_events (packet_state 6 K ''0111111'') s') = 1 \<and>
      count_bit (new_events (packet_state 6 K ''0111111'') s') = 0 \<and>
      consecutive_ones s' = 0) \<and>
   (\<exists>s'. get_bit (packet_state 6 K ''0111111'') K = Inr s' \<and>
      count_py ERR (new_events (packet_state 6 K ''0111111'') s') = 1 \<and>
      count_bit (new_events (packet_state 6 K ''0111111'') s') = 0 \<and>
      state s' = IDLE) \<and>
   (\<exists>s'. get_bit (packet_state 2 K ''011'') K = Inr s' \<and>
      count_py (BIT CHR ''1'') (new_events (packet_state 2 K ''011'') s') = 1 \<and>
      count_bit (new_events (packet_state 2 K ''011'') s') = 1 \<and>
      consecutive_ones s' = 3) \<and>
   (\<exists>s'. get_bit (packet_state 2 K ''011'') J = Inr s' \<and>
      count_py (BIT CHR ''0'') (new_events (packet_state 2 K ''011'') s') = 1 \<and>
      count_bit (new_events (packet_state 2 K ''011'') s') = 1 \<and>
      consecutive_ones s' = 0) \<and>
   map_sum id (\<lambda>s. (consecutive_ones s, state s)) (wait_for_sop (sop_state\<lparr>consecutive_ones := 5\<rparr>) K) = Inr (0, GET_BIT)"
proof -
  have a: "samplepos (packet_state c y bs) = Some (53 / 2)"
    "bitwidth (packet_state c y bs) = Some 4" "bits (packet_state c y bs) = Some bs"
    "samplerate (packet_state c y bs) = Some 48000000"
    "oldsym (packet_state c y bs) = y" "consecutive_ones (packet_state c y bs) = c"
    for c y bs
    by (simp_all add: packet_state_def init_def)
  have "\<not> isl (wait_for_sop (sop_state\<lparr>consecutive_ones := 5\<rparr>) K)"
    by code_simp
  then obtain t' where w: "wait_for_sop (sop_state\<lparr>consecutive_ones := 5\<rparr>) K = Inr t'"
    by (cases "wait_for_sop (sop_state\<lparr>consecutive_ones := 5\<rparr>) K") auto
  have o: "oldsym (sop_state\<lparr>consecutive_ones := 5\<rparr>) = J"
    by (simp add: sop_state_def init_def)
  have g5: "consecutive_ones t' = 0 \<and> state t' = GET_BIT"
    using bit_stuffing [OF a(1-4), of J 6 K "''0111111''", THEN conjunct2] o w by blast
  show ?thesis
    using bit_stuffing [OF a(1-4), of J 6 K "''0111111''", THEN conjunct1]
      bit_stuffing [OF a(1-4), of K 6 K "''0111111''", THEN conjunct1]
      bit_stuffing [OF a(1-4), of K 2 K "''011''", THEN conjunct1]
      bit_stuffing [OF a(1-4), of J 2 K "''011''", THEN conjunct1] w g5
    by (auto simp: a Let_def)
qed

section \<open>End of packet\<close>






section \<open>Idle conditions: Reset and Keep-Alive\<close>

lemma idle_gap_samplerate:
  assumes "idle_gap s = Inr s'"
  shows "samplerate s' = samplerate s"
  using assms
  by (auto simp: idle_gap_def put_defs Let_def split: option.splits if_splits)

lemma handle_idle_lock:
  assumes "idle_gap s = Inr s'" and "samplerate s = Some r" and "y = FS_J \<or> y = LS_J"
  shows "\<exists>s''. handle_idle s y = Inr s'' \<and> events s'' = events s' \<and> state s'' = IDLE \<and>
           signalling s'' = Some (if y = FS_J then FullSpeed else LowSpeed)"
proof -
  have "samplerate s' = Some r"
    using idle_gap_samplerate [OF assms(1)] assms(2) by simp
  then show ?thesis
    using assms(1,3)
    by (auto simp: handle_idle_def idle_speed_def update_bitrate_def bitrates_def)
qed

lemma idle_gap_cases:
  assumes "samplenum_lastedge s = Some le" and "samplerate s = Some r" and "r \<noteq> 0"
    and "signalling s = Some m"
  defines "gap \<equiv> real_of_int (samplenum s - le) / real_of_int r"
  shows "\<exists>s'. idle_gap s = Inr s' \<and>
           (if gap > 25 / 10000000 then
              py_events RESET (new_events s s') =
                [(Some le, Some (samplenum s), OutPython RESET)] \<and>
              count_py KEEP_ALIVE (new_events s s') = 0 \<and>
              signalling s' = Some (options_signalling s)
            else if gap > 12 / 10000000 \<and> m = LowSpeed then
              py_events KEEP_ALIVE (new_events s s') =
                [(Some le, Some (samplenum s), OutPython KEEP_ALIVE)] \<and>
              count_py RESET (new_events s s') = 0 \<and>
              signalling s' = Some m
            else
              new_events s s' = [] \<and> signalling s' = Some m) \<and>
           (\<forall>y. y \<noteq> FS_J \<and> y \<noteq> LS_J \<longrightarrow>
              handle_idle s y = Inr (s'\<lparr>oldsym := J, state := IDLE\<rparr>))"
  using assms(1-4) unfolding gap_def
  by (auto simp: idle_gap_def handle_idle_def idle_speed_def put_defs Let_def count_defs)

text \<open>
  Claim C6. With \<open>gap\<close> the number of samples since the last edge divided by the
  sampling rate, the classification at the head of \<open>handle_idle\<close> returns and
  \<^item> for \<open>gap > 2.5e-6\<close> emits exactly one RESET packet, from the last edge to the
    current sample, no KEEP ALIVE packet, and sets the mode to the configured option;
  \<^item> else for \<open>gap > 1.2e-6\<close> in low-speed mode emits exactly one KEEP ALIVE packet
    and no RESET packet, the mode unchanged;
  \<^item> else emits nothing, the mode unchanged.
  For a symbol other than \<open>FS_J\<close> and \<open>LS_J\<close> the rest of \<open>handle_idle\<close>
  only sets the last symbol to J and the state to IDLE; for \<open>FS_J\<close> and \<open>LS_J\<close>
  it adds no event and then locks the mode to full-speed or low-speed. The three gaps of
  the claim (2.6, 1.3 and 1.0 microseconds) are the instances of the witness.
\<close>

theorem idle_classification:
  assumes "samplenum_lastedge s = Some le" and "samplerate s = Some r" and "r \<noteq> 0"
    and "signalling s = Some m"
  defines "gap \<equiv> real_of_int (samplenum s - le) / real_of_int r"
  shows "(\<exists>s'. idle_gap s = Inr s' \<and>
           (if gap > 25 / 10000000 then
              py_events RESET (new_events s s') =
                [(Some le, Some (samplenum s), OutPython RESET)] \<and>
              count_py KEEP_ALIVE (new_events s s') = 0 \<and>
              signalling s' = Some (options_signalling s)
            else if gap > 12 / 10000000 \<and> m = LowSpeed then
              py_events KEEP_ALIVE (new_events s s') =
                [(Some le, Some (samplenum s), OutPython KEEP_ALIVE)] \<and>
              count_py RESET (new_events s s') = 0 \<and>
              signalling s' = Some m
            else
              new_events s s' = [] \<and> signalling s' = Some m)) \<and>
         (\<forall>y. y \<noteq> FS_J \<and> y \<noteq> LS_J \<longrightarrow>
            handle_idle s y =
              map_sum id (\<lambda>s'. s'\<lparr>oldsym := J, state := IDLE\<rparr>) (idle_gap s)) \<and>
         (\<forall>y. y = FS_J \<or> y = LS_J \<longrightarrow>
            (\<exists>s''. handle_idle s y = Inr s'' \<and>
               map_sum id events (idle_gap s) = Inr (events s'') \<and> state s'' = IDLE \<and>
               signalling s'' = Some (if y = FS_J then FullSpeed else LowSpeed)))"
proof -
  obtain s' where s': "idle_gap s = Inr s'"
    and c: "(if real_of_int (samplenum s - le) / real_of_int r > 25 / 10000000 then
              py_events RESET (new_events s s') =
                [(Some le, Some (samplenum s), OutPython RESET)] \<and>
              count_py KEEP_ALIVE (new_events s s') = 0 \<and>
              signalling s' = Some (options_signalling s)
            else if real_of_int (samplenum s - le) / real_of_int r > 12 / 10000000 \<and>
                    m = LowSpeed then
              py_events KEEP_ALIVE (new_events s s') =
                [(Some le, Some (samplenum s), OutPython KEEP_ALIVE)] \<and>
              count_py RESET (new_events s s') = 0 \<and>
              signalling s' = Some m
            else
              new_events s s' = [] \<and> signalling s' = Some m)"
    and h: "\<forall>y. y \<noteq> FS_J \<and> y \<noteq> LS_J \<longrightarrow>
              handle_idle s y = Inr (s'\<lparr>oldsym := J, state := IDLE\<rparr>)"
    using idle_gap_cases [OF assms(1-4)] by blast
  have g1: "\<exists>s'. idle_gap s = Inr s' \<and>
           (if gap > 25 / 10000000 then
              py_events RESET (new_events s s') =
                [(Some le, Some (samplenum s), OutPython RESET)] \<and>
              count_py KEEP_ALIVE (new_events s s') = 0 \<and>
              signalling s' = Some (options_signalling s)
            else if gap > 12 / 10000000 \<and> m = LowSpeed then
              py_events KEEP_ALIVE (new_events s s') =
                [(Some le, Some (samplenum s), OutPython KEEP_ALIVE)] \<and>
              count_py RESET (new_events s s') = 0 \<and>
              signalling s' = Some m
            else
              new_events s s' = [] \<and> signalling s' = Some m)"
    unfolding gap_def by (rule exI [of _ s'], intro conjI) (rule s' c)+
  have g2: "\<forall>y. y \<noteq> FS_J \<and> y \<noteq> LS_J \<longrightarrow>
            handle_idle s y =
              map_sum id (\<lambda>s'. s'\<lparr>oldsym := J, state := IDLE\<rparr>) (idle_gap s)"
    using h by (simp add: s')
  have g3: "\<forall>y. y = FS_J \<or> y = LS_J \<longrightarrow>
            (\<exists>s''. handle_idle s y = Inr s'' \<and>
               map_sum id events (idle_gap s) = Inr (events s'') \<and> state s'' = IDLE \<and>
               signalling s'' = Some (if y = FS_J then FullSpeed else LowSpeed))"
  proof (intro allI impI)
    fix y :: sym
    assume y: "y = FS_J \<or> y = LS_J"
    from handle_idle_lock [OF s' assms(2) y]
    show "\<exists>s''. handle_idle s y = Inr s'' \<and>
               map_sum id events (idle_gap s) = Inr (events s'') \<and> state s'' = IDLE \<and>
               signalling s'' = Some (if y = FS_J then FullSpeed else LowSpeed)"
      by (auto simp: s')
  qed
  from g1 g2 g3 show ?thesis by (intro conjI)
qed

text \<open>Witness for C6, at 10 MHz: 26 samples (2.6 microseconds) give a Reset and the
  configured mode; 13 samples (1.3 microseconds) give a Keep-Alive in low-speed mode and
  nothing in full-speed mode; 10 samples (1.0 microsecond) give nothing.\<close>

theorem idle_classification_witness:
  "(\<exists>s'. idle_gap (idle_state Automatic LowSpeed 26) = Inr s' \<and>
      py_events RESET (new_events (idle_state Automatic LowSpeed 26) s') =
        [(Some 100, Some 126, OutPython RESET)] \<and>
      count_py KEEP_ALIVE (new_events (idle_state Automatic LowSpeed 26) s') = 0 \<and>
      signalling s' = Some Automatic) \<and>
   (\<exists>s'. idle_gap (idle_state Automatic LowSpeed 13) = Inr s' \<and>
      py_events KEEP_ALIVE (new_events (idle_state Automatic LowSpeed 13) s') =
        [(Some 100, Some 113, OutPython KEEP_ALIVE)] \<and>
      count_py RESET (new_events (idle_state Automatic LowSpeed 13) s') = 0 \<and>
      signalling s' = Some LowSpeed) \<and>
   (\<exists>s'. idle_gap (idle_state Automatic FullSpeed 13) = Inr s' \<and>
      new_events (idle_state Automatic FullSpeed 13) s' = []) \<and>
   (\<exists>s'. idle_gap (idle_state Automatic LowSpeed 10) = Inr s' \<and>
      new_events (idle_state Automatic LowSpeed 10) s' = []) \<and>
   handle_idle (idle_state Automatic LowSpeed 10) J =
     map_sum id (\<lambda>s'. s'\<lparr>oldsym := J, state := IDLE\<rparr>)
       (idle_gap (idle_state Automatic LowSpeed 10)) \<and>
   (\<exists>s''. handle_idle (idle_state Automatic LowSpeed 26) FS_J = Inr s'' \<and>
      state s'' = IDLE \<and> signalling s'' = Some FullSpeed)"
proof -
  have a: "samplenum_lastedge (idle_state opt m n) = Some 100"
    "samplerate (idle_state opt m n) = Some 10000000" "(10000000 :: int) \<noteq> 0"
    "signalling (idle_state opt m n) = Some m" for opt m n
    by (simp_all add: idle_state_def init_def)
  have b: "samplenum (idle_state opt m n) = 100 + n"
    "options_signalling (idle_state opt m n) = opt" for opt m n
    by (simp_all add: idle_state_def init_def)
  have g1: "\<exists>s'. idle_gap (idle_state Automatic LowSpeed 26) = Inr s' \<and>
      py_events RESET (new_events (idle_state Automatic LowSpeed 26) s') =
        [(Some 100, Some 126, OutPython RESET)] \<and>
      count_py KEEP_ALIVE (new_events (idle_state Automatic LowSpeed 26) s') = 0 \<and>
      signalling s' = Some Automatic"
    using idle_classification [OF a, of Automatic LowSpeed 26, THEN conjunct1]
    by (simp add: b)
  have g2: "\<exists>s'. idle_gap (idle_state Automatic LowSpeed 13) = Inr s' \<and>
      py_events KEEP_ALIVE (new_events (idle_state Automatic LowSpeed 13) s') =
        [(Some 100, Some 113, OutPython KEEP_ALIVE)] \<and>
      count_py RESET (new_events (idle_state Automatic LowSpeed 13) s') = 0 \<and>
      signalling s' = Some LowSpeed"
    using idle_classification [OF a, of Automatic LowSpeed 13, THEN conjunct1]
    by (simp add: b)
  have g3: "\<exists>s'. idle_gap (idle_state Automatic FullSpeed 13) = Inr s' \<and>
      new_events (idle_state Automatic FullSpeed 13) s' = []"
    using idle_classification [OF a, of Automatic FullSpeed 13, THEN conjunct1]
    by (simp add: b) blast
  have g4: "\<exists>s'. idle_gap (idle_state Automatic LowSpeed 10) = Inr s' \<and>
      new_events (idle_state Automatic LowSpeed 10) s' = []"
    using idle_classification [OF a, of Automatic LowSpeed 10, THEN conjunct1]
    by (simp add: b) blast
  have g5: "handle_idle (idle_state Automatic LowSpeed 10) J =
     map_sum id (\<lambda>s'. s'\<lparr>oldsym := J, state := IDLE\<rparr>)
       (idle_gap (idle_state Automatic LowSpeed 10))"
    using idle_classification [OF a, of Automatic LowSpeed 10, THEN conjunct2, THEN conjunct1]
    by simp
  have g6: "\<exists>s''. handle_idle (idle_state Automatic LowSpeed 26) FS_J = Inr s'' \<and>
      state s'' = IDLE \<and> signalling s'' = Some FullSpeed"
    using idle_classification [OF a, of Automatic LowSpeed 26, THEN conjunct2, THEN conjunct2,
      rule_format, of FS_J]
    by auto
  from g1 g2 g3 g4 g5 g6 show ?thesis by (intro conjI)
qed

section \<open>The low-speed preamble\<close>

lemma preamble_length: "length preamble = 16"
  by (simp add: preamble_def)

text \<open>
  Claim C7. When the raw bit (before destuffing) that \<open>get_bit\<close> decodes completes
  the accumulated bits of the packet to exactly \<open>0000000100111100\<close>, \<open>get_bit\<close>
  returns and has emitted exactly one EOP packet (the implicit one, at the current edge),
  the state is IDLE, the mode is low-speed-rp, the bit rate is 1.5 MHz and the bit width is
  already the sampling rate divided by 1.5 MHz, and the last symbol is J.
\<close>

theorem preamble_switch:
  assumes "samplepos s = Some p" and "bitwidth s = Some bw" and "samplerate s = Some r"
    and "bits s = Some bs" and "y = J \<or> y = K \<or> y = SE0 \<or> y = SE1"
    and "bs @ [if oldsym s \<noteq> y then CHR ''0'' else CHR ''1''] = preamble"
  shows "\<exists>s'. get_bit s y = Inr s' \<and>
           py_events EOP (new_events s s') =
             [(Some (py_int (p + bw - bw / 2)), Some (py_int (p + bw - bw / 2)), OutPython EOP)] \<and>
           state s' = IDLE \<and> signalling s' = Some LowSpeedRP \<and>
           bitrate s' = Some 1500000 \<and> bitwidth s' = Some (real_of_int r / 1500000) \<and>
           oldsym s' = J \<and> bits s' = Some preamble"
proof -
  have len: "length bs = 15"
    using arg_cong [OF assms(6), of length] by (simp add: preamble_length)
  show ?thesis
    using assms len
    by (auto simp: get_bit_def track_preamble_def set_new_target_samplenum_def handle_bit_def put_sym_def
        put_defs update_bitrate_def bitrates_def Let_def sym_annotation_simps count_defs
        preamble_length)
qed


text \<open>Witness for C7: at 48 MHz, fifteen bits of the pattern accumulated, the last symbol
  J, and a K sampled: the bit width becomes 32 samples.\<close>

theorem preamble_switch_witness:
  "\<exists>s'. get_bit (packet_state 0 J ''000000010011110'') K = Inr s' \<and>
      py_events EOP (new_events (packet_state 0 J ''000000010011110'') s') =
        [(Some 28, Some 28, OutPython EOP)] \<and>
      state s' = IDLE \<and> signalling s' = Some LowSpeedRP \<and> bitrate s' = Some 1500000 \<and>
      bitwidth s' = Some 32 \<and> oldsym s' = J \<and> bits s' = Some ''0000000100111100''"
proof -
  have a: "samplepos (packet_state 0 J ''000000010011110'') = Some (53 / 2)"
    "bitwidth (packet_state 0 J ''000000010011110'') = Some 4"
    "samplerate (packet_state 0 J ''000000010011110'') = Some 48000000"
    "bits (packet_state 0 J ''000000010011110'') = Some ''000000010011110''"
    by (simp_all add: packet_state_def init_def)
  have b: "K = J \<or> K = K \<or> K = SE0 \<or> K = SE1"
    by simp
  have c: "''000000010011110'' @
      [if oldsym (packet_state 0 J ''000000010011110'') \<noteq> K then CHR ''0'' else CHR ''1''] =
      preamble"
    by (simp add: packet_state_def init_def preamble_def)
  have e: "py_int (57 / 2) = 28"
    by (simp add: py_int_def)
  show ?thesis
    using preamble_switch [OF a b c] by (simp add: e preamble_def)
qed

section \<open>What the methods leave unchanged\<close>

lemma set_new_target_frame:
  assumes "set_new_target_samplenum s = Inr s'"
  shows "signalling s' = signalling s" "options_signalling s' = options_signalling s"
    "state s' = state s" "events s' = events s" "bits s' = bits s"
    "samplerate s' = samplerate s" "oldsym s' = oldsym s"
  using set_new_target_Inr [OF assms] by auto

lemma update_bitrate_frame:
  assumes "update_bitrate s = Inr s'"
  shows "signalling s' = signalling s" "options_signalling s' = options_signalling s"
    "state s' = state s" "events s' = events s" "bits s' = bits s"
    "samplerate s' = samplerate s" "oldsym s' = oldsym s"
  using update_bitrate_Inr [OF assms] by auto

lemma put_sym_frame:
  assumes "put_sym y s = Inr s'"
  shows "signalling s' = signalling s" "options_signalling s' = options_signalling s"
    "state s' = state s" "bits s' = bits s" "samplerate s' = samplerate s"
    "oldsym s' = oldsym s"
  using assms by (auto simp: put_sym_def put_defs split: option.splits)

lemma handle_bit_frame:
  "signalling (handle_bit s b) = signalling s"
  "options_signalling (handle_bit s b) = options_signalling s"
  "bits (handle_bit s b) = bits s" "samplerate (handle_bit s b) = samplerate s"
  by (simp_all add: handle_bit_def put_defs Let_def)

lemma wait_for_sop_skip: "y \<noteq> K \<or> oldsym s \<noteq> J \<Longrightarrow> wait_for_sop s y = Inr s"
  by (simp add: wait_for_sop_def)

lemma wait_for_sop_signalling:
  assumes "wait_for_sop s y = Inr s'"
  shows "signalling s' = signalling s \<and> options_signalling s' = options_signalling s"
proof (cases "y \<noteq> K \<or> oldsym s \<noteq> J")
  case True
  with assms show ?thesis by (simp add: wait_for_sop_def)
next
  case False
  then have y: "y = K" and o: "oldsym s = J" by auto
  obtain p s1 s2 where
    s1: "update_bitrate (s\<lparr>samplepos := Some p, consecutive_ones := 0, bits := Some []\<rparr>) =
           Inr s1"
    and s2: "set_new_target_samplenum s1 = Inr s2"
    and s': "s' = (putx (4, [''SOP'', ''S'']) (putpx SOP s2))\<lparr>state := GET_BIT\<rparr>"
    using wait_for_sop_Inr [OF assms [unfolded y] o] by blast
  show ?thesis
    using update_bitrate_frame [OF s1] set_new_target_frame [OF s2] s'
    by (simp add: put_defs)
qed

lemma get_eop_Inr:
  assumes "get_eop s y = Inr s'"
  shows "\<exists>s1 s2. set_new_target_samplenum s = Inr s1 \<and> put_sym y s1 = Inr s2 \<and>
           (s' = s2\<lparr>oldsym := y\<rparr> \<or>
            s' = (putm (5, [''EOP'', ''E'']) (putpm EOP (s2\<lparr>oldsym := y\<rparr>)))
                   \<lparr>state := WAIT_IDLE\<rparr> \<or>
            s' = (putm (8, [''EOP Error'', ''EErr'', ''E''])
                    (putpm ERR (s2\<lparr>oldsym := y\<rparr>)))\<lparr>state := IDLE\<rparr>)"
proof -
  from assms obtain s1 where s1: "set_new_target_samplenum s = Inr s1"
    by (cases "set_new_target_samplenum s") (auto simp: get_eop_def)
  from assms s1 obtain s2 where s2: "put_sym y s1 = Inr s2"
    by (cases "put_sym y s1") (auto simp: get_eop_def)
  have "get_eop s y =
      (if y = SE0 then Inr (s2\<lparr>oldsym := y\<rparr>)
       else if y = J then
         Inr ((putm (5, [''EOP'', ''E'']) (putpm EOP (s2\<lparr>oldsym := y\<rparr>)))
                \<lparr>state := WAIT_IDLE\<rparr>)
       else
         Inr ((putm (8, [''EOP Error'', ''EErr'', ''E''])
                 (putpm ERR (s2\<lparr>oldsym := y\<rparr>)))\<lparr>state := IDLE\<rparr>))"
    by (simp add: get_eop_def s1 s2 Let_def)
  with assms have "s' = s2\<lparr>oldsym := y\<rparr> \<or>
            s' = (putm (5, [''EOP'', ''E'']) (putpm EOP (s2\<lparr>oldsym := y\<rparr>)))
                   \<lparr>state := WAIT_IDLE\<rparr> \<or>
            s' = (putm (8, [''EOP Error'', ''EErr'', ''E''])
                    (putpm ERR (s2\<lparr>oldsym := y\<rparr>)))\<lparr>state := IDLE\<rparr>"
    by (cases "y = SE0"; cases "y = J") simp_all
  with s1 s2 show ?thesis by blast
qed

lemma get_eop_signalling:
  assumes "get_eop s y = Inr s'"
  shows "signalling s' = signalling s \<and> options_signalling s' = options_signalling s"
proof -
  obtain s1 s2 where s1: "set_new_target_samplenum s = Inr s1"
    and s2: "put_sym y s1 = Inr s2"
    and s': "s' = s2\<lparr>oldsym := y\<rparr> \<or>
            s' = (putm (5, [''EOP'', ''E'']) (putpm EOP (s2\<lparr>oldsym := y\<rparr>)))
                   \<lparr>state := WAIT_IDLE\<rparr> \<or>
            s' = (putm (8, [''EOP Error'', ''EErr'', ''E''])
                    (putpm ERR (s2\<lparr>oldsym := y\<rparr>)))\<lparr>state := IDLE\<rparr>"
    using get_eop_Inr [OF assms] by blast
  have "signalling s2 = signalling s \<and> options_signalling s2 = options_signalling s"
    using set_new_target_frame(1,2) [OF s1] put_sym_frame(1,2) [OF s2] by simp
  with s' show ?thesis
    by (elim disjE) (simp_all add: put_defs)
qed

lemma track_preamble_signalling:
  assumes "track_preamble s b = Inr s'"
  shows "options_signalling s' = options_signalling s \<and>
         (signalling s' = signalling s \<and> state s' = state s \<or>
          signalling s' = Some LowSpeedRP \<and> state s' = IDLE \<and> bits s' = Some preamble)"
proof (cases "bits s")
  case None
  with assms show ?thesis by (simp add: track_preamble_def)
next
  case (Some bs)
  define bs1 where "bs1 = (if length bs \<le> 16 then bs @ [b] else bs)"
  define s5 where "s5 = s\<lparr>bits := Some bs1\<rparr>"
  have eq: "track_preamble s b =
      (if length bs1 = 16 \<and> bs1 = preamble then
         bind_res
           (update_bitrate ((putpx EOP s5)\<lparr>state := IDLE, signalling := Some LowSpeedRP\<rparr>))
           (\<lambda>s6. Inr (s6\<lparr>oldsym := J\<rparr>))
       else Inr s5)"
    unfolding track_preamble_def Some option.case Let_def bs1_def s5_def ..
  show ?thesis
  proof (cases "length bs1 = 16 \<and> bs1 = preamble")
    case True
    have "track_preamble s b =
        bind_res
          (update_bitrate ((putpx EOP s5)\<lparr>state := IDLE, signalling := Some LowSpeedRP\<rparr>))
          (\<lambda>s6. Inr (s6\<lparr>oldsym := J\<rparr>))"
      unfolding eq by (rule if_P [OF True])
    with assms obtain s6 where
      s6: "update_bitrate ((putpx EOP s5)\<lparr>state := IDLE, signalling := Some LowSpeedRP\<rparr>) =
             Inr s6"
      and s': "s' = s6\<lparr>oldsym := J\<rparr>"
      by (auto simp: bind_res_Inr_iff)
    have "bits s5 = Some preamble"
      using True by (simp add: s5_def)
    then show ?thesis
      using update_bitrate_frame [OF s6] s' by (simp add: put_defs s5_def)
  next
    case False
    have "track_preamble s b = Inr s5"
      unfolding eq by (rule if_not_P [OF False])
    with assms have "s' = s5"
      by simp
    then show ?thesis by (simp add: s5_def)
  qed
qed

lemma get_bit_Inr:
  assumes "get_bit s y = Inr s'"
  shows "\<exists>s1 s3 s4 b. set_new_target_samplenum s = Inr s1 \<and>
           (s3 = s1\<lparr>oldsym := y, state := GET_EOP, ss_block := samplenum_lastedge s1\<rparr> \<or>
            s3 = handle_bit (s1\<lparr>oldsym := y\<rparr>) b) \<and>
           put_sym y s3 = Inr s4 \<and> track_preamble s4 b = Inr s'"
proof -
  from assms obtain s1 where s1: "set_new_target_samplenum s = Inr s1"
    by (cases "set_new_target_samplenum s") (auto simp: get_bit_def)
  define b where "b = (if oldsym s1 \<noteq> y then CHR ''0'' else CHR ''1'')"
  define s3 where "s3 = (if y = SE0
      then s1\<lparr>oldsym := y, state := GET_EOP, ss_block := samplenum_lastedge s1\<rparr>
      else handle_bit (s1\<lparr>oldsym := y\<rparr>) b)"
  have g: "get_bit s y = bind_res (put_sym y s3) (\<lambda>s4. track_preamble s4 b)"
    by (simp add: get_bit_def s1 Let_def b_def s3_def)
  with assms obtain s4 where s4: "put_sym y s3 = Inr s4" and t: "track_preamble s4 b = Inr s'"
    by (cases "put_sym y s3") auto
  have "s3 = s1\<lparr>oldsym := y, state := GET_EOP, ss_block := samplenum_lastedge s1\<rparr> \<or>
        s3 = handle_bit (s1\<lparr>oldsym := y\<rparr>) b"
    by (simp add: s3_def)
  with s1 s4 t show ?thesis by blast
qed

lemma get_bit_signalling:
  assumes "get_bit s y = Inr s'"
  shows "options_signalling s' = options_signalling s \<and>
         (signalling s' = signalling s \<or>
          signalling s' = Some LowSpeedRP \<and> state s' = IDLE \<and> bits s' = Some preamble)"
proof -
  obtain s1 s3 s4 b where s1: "set_new_target_samplenum s = Inr s1"
    and s3: "s3 = s1\<lparr>oldsym := y, state := GET_EOP, ss_block := samplenum_lastedge s1\<rparr> \<or>
            s3 = handle_bit (s1\<lparr>oldsym := y\<rparr>) b"
    and s4: "put_sym y s3 = Inr s4"
    and s': "track_preamble s4 b = Inr s'"
    using get_bit_Inr [OF assms] by blast
  from s3 have "signalling s3 = signalling s1 \<and> options_signalling s3 = options_signalling s1"
    by (elim disjE) (simp_all add: handle_bit_frame)
  then have "signalling s4 = signalling s \<and> options_signalling s4 = options_signalling s"
    using set_new_target_frame(1,2) [OF s1] put_sym_frame(1,2) [OF s4] by simp
  with track_preamble_signalling [OF s'] show ?thesis by auto
qed

lemma idle_gap_Inr:
  assumes "idle_gap s = Inr s'"
  shows "s' = s\<lparr>samplenum_edge := Some (samplenum s)\<rparr> \<or>
         s' = putb (9, [''Keep-alive'', ''KA'', ''A''])
                (putpb KEEP_ALIVE (s\<lparr>samplenum_edge := Some (samplenum s)\<rparr>)) \<or>
         s' = (putb (10, [''Reset'', ''Res'', ''R''])
                 (putpb RESET (s\<lparr>samplenum_edge := Some (samplenum s)\<rparr>)))
                \<lparr>signalling := Some (options_signalling s)\<rparr>"
  using assms
  by (auto simp: idle_gap_def Let_def split: option.splits if_splits)

lemma idle_gap_signalling:
  assumes "idle_gap s = Inr s'"
  shows "options_signalling s' = options_signalling s \<and>
         (signalling s' = signalling s \<or> signalling s' = Some (options_signalling s))"
  using idle_gap_Inr [OF assms] by (auto simp: put_defs)

lemma idle_speed_Inr:
  assumes "idle_speed s y = Inr s'"
  shows "\<exists>s1. s' = s1\<lparr>oldsym := J, state := IDLE\<rparr> \<and>
           (if y = FS_J then update_bitrate (s\<lparr>signalling := Some FullSpeed\<rparr>) = Inr s1
            else if y = LS_J then update_bitrate (s\<lparr>signalling := Some LowSpeed\<rparr>) = Inr s1
            else s1 = s)"
  using assms by (auto simp: idle_speed_def bind_res_Inr_iff split: if_splits)

lemma idle_speed_signalling:
  assumes "idle_speed s y = Inr s'"
  shows "options_signalling s' = options_signalling s \<and> state s' = IDLE \<and>
         events s' = events s \<and>
         signalling s' =
           (if y = FS_J then Some FullSpeed else if y = LS_J then Some LowSpeed
            else signalling s)"
proof -
  obtain s1 where s': "s' = s1\<lparr>oldsym := J, state := IDLE\<rparr>"
    and s1: "if y = FS_J then update_bitrate (s\<lparr>signalling := Some FullSpeed\<rparr>) = Inr s1
            else if y = LS_J then update_bitrate (s\<lparr>signalling := Some LowSpeed\<rparr>) = Inr s1
            else s1 = s"
    using idle_speed_Inr [OF assms] by blast
  consider "y = FS_J" | "y \<noteq> FS_J" "y = LS_J" | "y \<noteq> FS_J" "y \<noteq> LS_J"
    by blast
  then show ?thesis
  proof cases
    case 1
    with s1 have u: "update_bitrate (s\<lparr>signalling := Some FullSpeed\<rparr>) = Inr s1"
      by simp
    show ?thesis
      using update_bitrate_frame(1,2,4) [OF u] s' 1 by simp
  next
    case 2
    with s1 have u: "update_bitrate (s\<lparr>signalling := Some LowSpeed\<rparr>) = Inr s1"
      by simp
    show ?thesis
      using update_bitrate_frame(1,2,4) [OF u] s' 2 by simp
  next
    case 3
    with s1 s' show ?thesis by simp
  qed
qed


lemma handle_idle_Inr:
  assumes "handle_idle s y = Inr s'"
  shows "\<exists>s1. idle_gap s = Inr s1 \<and> idle_speed s1 y = Inr s'"
  using assms by (auto simp: handle_idle_def bind_res_Inr_iff)

lemma handle_idle_signalling:
  assumes "handle_idle s y = Inr s'"
  shows "options_signalling s' = options_signalling s \<and> state s' = IDLE \<and>
         (signalling s' = signalling s \<or> signalling s' = Some (options_signalling s) \<or>
          signalling s' = Some FullSpeed \<or> signalling s' = Some LowSpeed)"
proof -
  obtain s1 where s1: "idle_gap s = Inr s1" and s': "idle_speed s1 y = Inr s'"
    using handle_idle_Inr [OF assms] by blast
  have a: "options_signalling s1 = options_signalling s"
    and b: "signalling s1 = signalling s \<or> signalling s1 = Some (options_signalling s)"
    using idle_gap_signalling [OF s1] by simp_all
  have c: "options_signalling s' = options_signalling s1" and d: "state s' = IDLE"
    and e: "signalling s' =
           (if y = FS_J then Some FullSpeed else if y = LS_J then Some LowSpeed
            else signalling s1)"
    using idle_speed_signalling [OF s'] by simp_all
  from b e have "signalling s' = signalling s \<or> signalling s' = Some (options_signalling s) \<or>
          signalling s' = Some FullSpeed \<or> signalling s' = Some LowSpeed"
    by (cases "y = FS_J"; cases "y = LS_J") auto
  with a c d show ?thesis by simp
qed

section \<open>One sample of the state machine\<close>

lemma process_sample_IDLE:
  assumes "state s = IDLE" and "process_sample s p = Inr s'"
  shows "s' = s \<or>
         s' = s\<lparr>oldpins := Some p, samplenum_lastedge := Some (samplenum s),
                state := WAIT_IDLE, edgepins := Some p\<rparr> \<or>
         (\<exists>y s2. classify (signalling s) p = Inr y \<and>
            wait_for_sop (s\<lparr>oldpins := Some p\<rparr>) y = Inr s2 \<and>
            s' = s2\<lparr>edgepins := Some p\<rparr>)"
  using assms
  by (auto simp: process_sample_def Let_def bind_res_Inr_iff split: if_splits)

lemma process_sample_GET_BIT:
  assumes "state s = GET_BIT" and "process_sample s p = Inr s'"
  shows "\<exists>s1. (s1 = s \<or> s1 = s\<lparr>edgepins := Some p\<rparr>) \<and>
           (s' = s1 \<or>
            (\<exists>y s2. classify (signalling s) p = Inr y \<and> get_bit s1 y = Inr s2 \<and>
               s' = s2\<lparr>oldpins := Some p\<rparr>))"
  using assms
  by (auto simp: process_sample_def Let_def bind_res_Inr_iff split: if_splits option.splits)

lemma process_sample_GET_EOP:
  assumes "state s = GET_EOP" and "process_sample s p = Inr s'"
  shows "\<exists>s1. (s1 = s \<or> s1 = s\<lparr>edgepins := Some p\<rparr>) \<and>
           (s' = s1 \<or>
            (\<exists>y s2. classify (signalling s) p = Inr y \<and> get_eop s1 y = Inr s2 \<and>
               s' = s2\<lparr>oldpins := Some p\<rparr>))"
  using assms
  by (auto simp: process_sample_def Let_def bind_res_Inr_iff split: if_splits option.splits)

lemma process_sample_WAIT_IDLE:
  assumes "state s = WAIT_IDLE" and "process_sample s p = Inr s'"
  shows "s' = s \<or>
         (\<exists>y s2. classify (Some (options_signalling s)) p = Inr y \<and>
            handle_idle s y = Inr s2 \<and> s' = s2\<lparr>oldpins := Some p, edgepins := Some p\<rparr>) \<or>
         (\<exists>y s2. classify (signalling s) p = Inr y \<and>
            wait_for_sop s y = Inr s2 \<and> s' = s2\<lparr>oldpins := Some p, edgepins := Some p\<rparr>)"
  using assms
  by (auto simp: process_sample_def Let_def bind_res_Inr_iff split: if_splits option.splits)

lemma process_sample_INIT:
  assumes "state s = INIT" and "process_sample s p = Inr s'"
  shows "\<exists>y s2. classify (Some (options_signalling s)) p = Inr y \<and>
           handle_idle s y = Inr s2 \<and> s' = s2\<lparr>oldpins := Some p\<rparr>"
  using assms
  by (auto simp: process_sample_def Let_def bind_res_Inr_iff)


text \<open>A sample leaves the configured option alone, and changes the mode only on the way
  to IDLE: to the configured option (Reset), to full-speed or low-speed (speed detection),
  or, from GET\_BIT, to low-speed-rp with the preamble pattern accumulated.\<close>

lemma process_sample_mode:
  assumes "process_sample s p = Inr s'"
  shows "options_signalling s' = options_signalling s \<and>
         (signalling s' = signalling s \<or>
          state s' = IDLE \<and>
          (signalling s' = Some (options_signalling s) \<or> signalling s' = Some FullSpeed \<or>
           signalling s' = Some LowSpeed \<or>
           state s = GET_BIT \<and> signalling s' = Some LowSpeedRP \<and> bits s' = Some preamble))"
proof (cases "state s")
  case INIT
  from process_sample_INIT [OF INIT assms] obtain y s2 where
    "handle_idle s y = Inr s2" "s' = s2\<lparr>oldpins := Some p\<rparr>"
    by blast
  with handle_idle_signalling [of s y s2] show ?thesis by auto
next
  case IDLE
  from process_sample_IDLE [OF IDLE assms]
  consider "s' = s"
    | "s' = s\<lparr>oldpins := Some p, samplenum_lastedge := Some (samplenum s),
                state := WAIT_IDLE, edgepins := Some p\<rparr>"
    | y s2 where "wait_for_sop (s\<lparr>oldpins := Some p\<rparr>) y = Inr s2"
        "s' = s2\<lparr>edgepins := Some p\<rparr>"
    by blast
  then show ?thesis
  proof cases
    case 3
    with wait_for_sop_signalling [of "s\<lparr>oldpins := Some p\<rparr>" y s2] show ?thesis by simp
  qed simp_all
next
  case WAIT_IDLE
  from process_sample_WAIT_IDLE [OF WAIT_IDLE assms]
  consider "s' = s"
    | y s2 where "handle_idle s y = Inr s2" "s' = s2\<lparr>oldpins := Some p, edgepins := Some p\<rparr>"
    | y s2 where "wait_for_sop s y = Inr s2" "s' = s2\<lparr>oldpins := Some p, edgepins := Some p\<rparr>"
    by blast
  then show ?thesis
  proof cases
    case 1
    then show ?thesis by simp
  next
    case 2
    with handle_idle_signalling [of s y s2] show ?thesis by auto
  next
    case 3
    with wait_for_sop_signalling [of s y s2] show ?thesis by simp
  qed
next
  case GET_BIT
  from process_sample_GET_BIT [OF GET_BIT assms] obtain s1 where
    s1: "s1 = s \<or> s1 = s\<lparr>edgepins := Some p\<rparr>"
    and r: "s' = s1 \<or> (\<exists>y s2. get_bit s1 y = Inr s2 \<and> s' = s2\<lparr>oldpins := Some p\<rparr>)"
    by blast
  from s1 have f: "signalling s1 = signalling s" "options_signalling s1 = options_signalling s"
    by auto
  from r show ?thesis
  proof
    assume "s' = s1"
    with f show ?thesis by simp
  next
    assume "\<exists>y s2. get_bit s1 y = Inr s2 \<and> s' = s2\<lparr>oldpins := Some p\<rparr>"
    then obtain y s2 where g: "get_bit s1 y = Inr s2" and s': "s' = s2\<lparr>oldpins := Some p\<rparr>"
      by blast
    from get_bit_signalling [OF g] f s' GET_BIT show ?thesis by auto
  qed
next
  case GET_EOP
  from process_sample_GET_EOP [OF GET_EOP assms] obtain s1 where
    s1: "s1 = s \<or> s1 = s\<lparr>edgepins := Some p\<rparr>"
    and r: "s' = s1 \<or> (\<exists>y s2. get_eop s1 y = Inr s2 \<and> s' = s2\<lparr>oldpins := Some p\<rparr>)"
    by blast
  from s1 have f: "signalling s1 = signalling s" "options_signalling s1 = options_signalling s"
    by auto
  from r show ?thesis
  proof
    assume "s' = s1"
    with f show ?thesis by simp
  next
    assume "\<exists>y s2. get_eop s1 y = Inr s2 \<and> s' = s2\<lparr>oldpins := Some p\<rparr>"
    then obtain y s2 where g: "get_eop s1 y = Inr s2" and s': "s' = s2\<lparr>oldpins := Some p\<rparr>"
      by blast
    from get_eop_signalling [OF g] f s' show ?thesis by auto
  qed
qed

lemma idle_gap_reset:
  assumes "idle_gap s = Inr s'" and "samplenum_lastedge s = Some le" and "samplerate s = Some r"
    and "real_of_int (samplenum s - le) / real_of_int r > 25 / 10000000"
  shows "signalling s' = Some (options_signalling s)"
  using assms by (auto simp: idle_gap_def Let_def put_defs split: if_splits)

section \<open>The mode low-speed-rp\<close>

text \<open>
  Claim C8, as amended. With a configured option other than low-speed-rp (the option has
  the values automatic, full-speed and low-speed), a sample takes the decoder from another
  mode into low-speed-rp only in GET\_BIT, by a bit that completes the accumulated bits to
  the 16-bit preamble pattern, and leaves the state IDLE; the code does not look at the
  mode it switches from, which can be full-speed as well as low-speed. Once
  \<open>handle_idle\<close> sees a gap above 2.5 microseconds (a Reset), the mode is the
  configured option again, or the speed detected from an \<open>FS_J\<close> or \<open>LS_J\<close>
  symbol of the automatic option.
\<close>

theorem low_speed_rp_entry_and_exit:
  "(process_sample s p = Inr s' \<and> signalling s \<noteq> Some LowSpeedRP \<and>
    options_signalling s \<noteq> LowSpeedRP \<and> signalling s' = Some LowSpeedRP \<longrightarrow>
      state s = GET_BIT \<and> state s' = IDLE \<and> bits s' = Some preamble) \<and>
   (handle_idle t y = Inr t' \<and> samplenum_lastedge t = Some le \<and> samplerate t = Some r \<and>
    real_of_int (samplenum t - le) / real_of_int r > 25 / 10000000 \<longrightarrow>
      signalling t' =
        Some (if y = FS_J then FullSpeed else if y = LS_J then LowSpeed
              else options_signalling t))"
proof (intro conjI impI)
  assume a: "process_sample s p = Inr s' \<and> signalling s \<noteq> Some LowSpeedRP \<and>
    options_signalling s \<noteq> LowSpeedRP \<and> signalling s' = Some LowSpeedRP"
  with process_sample_mode [of s p s']
  show "state s = GET_BIT" and "state s' = IDLE" and "bits s' = Some preamble"
    by auto
next
  assume a: "handle_idle t y = Inr t' \<and> samplenum_lastedge t = Some le \<and>
    samplerate t = Some r \<and>
    real_of_int (samplenum t - le) / real_of_int r > 25 / 10000000"
  then obtain t1 where t1: "idle_gap t = Inr t1" and t': "idle_speed t1 y = Inr t'"
    using handle_idle_Inr by blast
  from idle_gap_reset [OF t1] a have "signalling t1 = Some (options_signalling t)"
    by blast
  with idle_speed_signalling [OF t']
  show "signalling t' =
        Some (if y = FS_J then FullSpeed else if y = LS_J then LowSpeed
              else options_signalling t)"
    by simp
qed

text \<open>Witness for C8: the sample that completes the preamble in full-speed mode at
  48 MHz, and a Reset (26 samples at 10 MHz) in low-speed-rp mode with the option
  full-speed.\<close>

theorem low_speed_rp_entry_and_exit_witness:
  "map_sum id (\<lambda>s'. (signalling s', state s', bits s'))
     (process_sample (packet_state 0 J ''000000010011110'') (0, 1)) =
     Inr (Some LowSpeedRP, IDLE, Some ''0000000100111100'') \<and>
   state (packet_state 0 J ''000000010011110'') = GET_BIT \<and>
   map_sum id signalling (handle_idle (idle_state FullSpeed LowSpeedRP 26) J) =
     Inr (Some FullSpeed)"
proof -
  let ?s = "packet_state 0 J ''000000010011110''"
  let ?t = "idle_state FullSpeed LowSpeedRP 26"
  have e: "map_sum id signalling (process_sample ?s (0, 1)) = Inr (Some LowSpeedRP)"
    by code_simp
  then obtain s' where s': "process_sample ?s (0, 1) = Inr s'"
    and m: "signalling s' = Some LowSpeedRP"
    by (cases "process_sample ?s (0, 1)") auto
  have h: "signalling ?s \<noteq> Some LowSpeedRP" "options_signalling ?s \<noteq> LowSpeedRP"
    by (simp_all add: packet_state_def init_def)
  have g1: "state ?s = GET_BIT \<and> state s' = IDLE \<and> bits s' = Some preamble"
    using low_speed_rp_entry_and_exit [of ?s "(0, 1)" s', THEN conjunct1] s' m h by blast
  have "\<not> isl (handle_idle ?t J)"
    by code_simp
  then obtain t' where t': "handle_idle ?t J = Inr t'"
    by (cases "handle_idle ?t J") auto
  have k: "samplenum_lastedge ?t = Some 100" "samplerate ?t = Some 10000000"
    "real_of_int (samplenum ?t - 100) / real_of_int 10000000 > 25 / 10000000"
    "options_signalling ?t = FullSpeed"
    by (simp_all add: idle_state_def init_def)
  have g2: "signalling t' = Some FullSpeed"
    using low_speed_rp_entry_and_exit [of s p s' ?t J t' 100 10000000, THEN conjunct2] t' k
    by simp
  from g1 g2 s' m t' show ?thesis
    by (simp add: preamble_def)
qed

text \<open>Counterexample to C8 as stated: with the option full-speed (the mode is
  full-speed from \<open>metadata\<close> on, never automatic or low-speed) the decoder is in
  GET\_BIT in full-speed mode after the first 34 samples of \<open>trace_preamble\<close>, and
  in low-speed-rp mode after the whole capture.\<close>

theorem low_speed_rp_from_full_speed_counterexample:
  "map_sum id (\<lambda>s. (signalling s, state s))
     (run_decode FullSpeed 24000000 (take 34 trace_preamble)) = Inr (Some FullSpeed, GET_BIT) \<and>
   map_sum id (\<lambda>s. (signalling s, state s))
     (run_decode FullSpeed 24000000 trace_preamble) = Inr (Some LowSpeedRP, IDLE)"
  by code_simp

end
